theory Spec2Isabelle
  imports Main "HOL-Library.Multiset"
begin

section \<open>Data model\<close>

text \<open>
  A sequence record as \<^verbatim>\<open>Bio.SeqRecord\<close> carries it for a FASTA file: the identifier
  (first word of the header), the name, the description (the whole header) and the
  sequence. The sequence is held as the FASTA parser stores it, as bytes; the other
  fields are text.
\<close>

record seq_record =
  id_str :: string
  name :: string
  description :: string
  seq :: string

text \<open>
  The exceptions a run can end with. Nothing in the source catches an exception, so a
  raised exception leaves \<^verbatim>\<open>main\<close> and the interpreter exits with status 1.
  \<open>UnicodeDecodeError\<close> carries the bytes that were decoded and the position of the
  first byte that is not ASCII.
\<close>

datatype py_exception =
    FileNotFoundError
  | PermissionError
  | ValueError string
  | UnicodeDecodeError string nat
  | CalledProcessError int
  | Exception string

text \<open>
  \<^verbatim>\<open>str(record.seq)\<close>: the bytes of the sequence are decoded as ASCII, which raises
  \<^verbatim>\<open>UnicodeDecodeError\<close> at the first byte above 127.
\<close>

definition str_seq :: "string \<Rightarrow> py_exception + string" where
  "str_seq data =
     (if list_all (\<lambda>c. (of_char c :: nat) < 128) data then Inr data
      else Inl (UnicodeDecodeError data
                  (length (takeWhile (\<lambda>c. (of_char c :: nat) < 128) data))))"

text \<open>
  \<^verbatim>\<open>str.upper()\<close> on ASCII text, which is all that \<^verbatim>\<open>str(record.seq)\<close> returns: the
  letters a..z are mapped to A..Z, every other character is left as it is.
\<close>

definition upper_char :: "char \<Rightarrow> char" where
  "upper_char c =
     (let n = (of_char c :: nat)
      in if 97 \<le> n \<and> n \<le> 122 then char_of (n - 32) else c)"

definition upper :: "string \<Rightarrow> string" where
  "upper s = map upper_char s"

type_synonym partition_result = "seq_record list \<times> (string \<times> string) list"

section \<open>The alphabet filter\<close>

text \<open>
  \<^verbatim>\<open>process_chunk\<close>: the loop over the records of a batch, with the two accumulators
  \<^verbatim>\<open>kept\<close> and \<^verbatim>\<open>removed\<close> it appends to. An exception of \<^verbatim>\<open>str(record.seq)\<close>
  leaves the loop and the function.
\<close>

fun process_chunk_loop ::
  "seq_record list \<Rightarrow> char set \<Rightarrow> partition_result \<Rightarrow> py_exception + partition_result" where
  "process_chunk_loop [] standard_aa (kept, removed) = Inr (kept, removed)"
| "process_chunk_loop (record # records) standard_aa (kept, removed) =
     (case str_seq (seq record) of
        Inl ex \<Rightarrow> Inl ex
      | Inr s \<Rightarrow>
          (let sq = upper s
           in if set sq \<subseteq> standard_aa
              then process_chunk_loop records standard_aa (kept @ [record], removed)
              else process_chunk_loop records standard_aa (kept, removed @ [(id_str record, sq)])))"

definition process_chunk ::
  "seq_record list \<Rightarrow> char set \<Rightarrow> py_exception + partition_result" where
  "process_chunk records standard_aa = process_chunk_loop records standard_aa ([], [])"

section \<open>Files and the environment of a run\<close>

text \<open>A future holds what the submitted call returned, or the exception it raised.\<close>

type_synonym future = "py_exception + partition_result"

text \<open>
  The files a run touches outside its temporary directory: the report (a text file), the
  final output and the cluster file. \<open>None\<close> is a file that does not exist. A FASTA file
  is held as the list of records it stores; writing to these files is taken to succeed.
\<close>

record files =
  report :: "string option"
  final_output :: "seq_record list option"
  output_clstr :: "string option"

text \<open>The command-line arguments that decide the control flow of \<^verbatim>\<open>main\<close>.\<close>

record args =
  threads :: "int option"
  chunk :: int
  keep_uo :: bool
  skip_length :: bool
  skip_cdhit :: bool

text \<open>
  What the run gets from outside the source file:
  \<^item> \<open>parse_input\<close>: the records \<^verbatim>\<open>SeqIO.parse(args.input, "fasta")\<close> yields, in file
    order, and the exception it raises after them, if any (a missing file yields no
    record and raises at once);
  \<^item> \<open>completion\<close>: the order in which \<^verbatim>\<open>as_completed\<close> yields the futures, as
    indices into the list of submitted futures;
  \<^item> \<open>seqkit\<close> and \<open>cd_hit\<close>: the two external tools, with the bounds, the identity
    and the thread count of the command line already applied; a non-zero exit status is
    \<open>CalledProcessError\<close>, and \<open>cd_hit\<close> also gives the cluster file when it wrote one.
\<close>

record env =
  parse_input :: "seq_record list \<times> py_exception option"
  completion :: "nat list"
  seqkit :: "seq_record list \<Rightarrow> py_exception + seq_record list"
  cd_hit :: "seq_record list \<Rightarrow> py_exception + seq_record list \<times> string option"

section \<open>Step 1: chunked dispatch and collection\<close>

definition main_standard_aa :: "bool \<Rightarrow> char set" where
  "main_standard_aa uo =
     (if uo then set ''ACDEFGHIKLMNPQRSTVWY'' \<union> set ''UO'' else set ''ACDEFGHIKLMNPQRSTVWY'')"

text \<open>
  \<^verbatim>\<open>executor.submit(process_chunk, chunk, standard_aa)\<close>: the future holds what the
  call returns or raises.
\<close>

definition executor_submit :: "seq_record list \<Rightarrow> char set \<Rightarrow> future" where
  "executor_submit batch aa = process_chunk batch aa"

text \<open>
  The loop over the parsed records: the state is \<^verbatim>\<open>input_count\<close>, \<^verbatim>\<open>futures\<close> (in
  submission order) and the current \<^verbatim>\<open>chunk\<close>.
\<close>

fun read_loop ::
  "int \<Rightarrow> char set \<Rightarrow> seq_record list \<Rightarrow> int \<times> future list \<times> seq_record list
     \<Rightarrow> int \<times> future list \<times> seq_record list" where
  "read_loop c aa [] (input_count, futures, chnk) = (input_count, futures, chnk)"
| "read_loop c aa (record # records) (input_count, futures, chnk) =
     (let input_count' = input_count + 1;
          chnk' = chnk @ [record]
      in if int (length chnk') \<ge> c
         then read_loop c aa records (input_count', futures @ [executor_submit chnk' aa], [])
         else read_loop c aa records (input_count', futures, chnk'))"

definition submit_all :: "int \<Rightarrow> char set \<Rightarrow> seq_record list \<Rightarrow> int \<times> future list" where
  "submit_all c aa records =
     (case read_loop c aa records (0, [], []) of
        (input_count, futures, chnk) \<Rightarrow>
          (input_count, if chnk \<noteq> [] then futures @ [executor_submit chnk aa] else futures))"

definition as_completed :: "future list \<Rightarrow> nat list \<Rightarrow> future list" where
  "as_completed futures order = map (\<lambda>i. futures ! i) order"

definition report_line :: "string \<times> string \<Rightarrow> string" where
  "report_line p = fst p @ [CHR 0x09] @ snd p @ [CHR 0x0A]"

fun write_removed :: "(string \<times> string) list \<Rightarrow> string \<Rightarrow> string" where
  "write_removed [] content = content"
| "write_removed (p # removed) content = write_removed removed (content @ report_line p)"

definition open_append :: "string option \<Rightarrow> string" where
  "open_append f = (case f of None \<Rightarrow> [] | Some content \<Rightarrow> content)"

record run_state =
  total_kept :: int
  total_removed :: int
  temp_files :: "seq_record list list"
  fs :: files

text \<open>
  The loop over \<^verbatim>\<open>as_completed(futures)\<close>: \<^verbatim>\<open>future.result()\<close> returns the
  partition or raises the exception of the worker, which ends the loop.
\<close>

fun collect :: "future list \<Rightarrow> run_state \<Rightarrow> run_state \<times> py_exception option" where
  "collect [] st = (st, None)"
| "collect (Inl e # done) st = (st, Some e)"
| "collect (Inr (kept, removed) # done) st =
     (let st1 = st\<lparr>total_kept := total_kept st + int (length kept),
                    total_removed := total_removed st + int (length removed)\<rparr>;
          st2 = (if kept \<noteq> [] then st1\<lparr>temp_files := temp_files st1 @ [kept]\<rparr> else st1);
          st3 = (if removed \<noteq> []
                 then st2\<lparr>fs := (fs st2)\<lparr>report :=
                        Some (write_removed removed (open_append (report (fs st2))))\<rparr>\<rparr>
                 else st2)
      in collect done st3)"

record step1_result =
  input_count :: int
  after_aa_filter :: int
  removed_nonstandard_aa :: int
  step1_output :: "seq_record list"

text \<open>
  Step 1 of \<^verbatim>\<open>main\<close>. \<^verbatim>\<open>ThreadPoolExecutor\<close> raises \<^verbatim>\<open>ValueError\<close> for a
  non-positive \<^verbatim>\<open>max_workers\<close>. An exception of the reader leaves the \<^verbatim>\<open>for\<close> loop
  before any future is consumed; an exception of a worker leaves the collection loop.
  The temporary files go with the temporary directory; the report stays as it is.
\<close>

definition step1 :: "args \<Rightarrow> env \<Rightarrow> files \<Rightarrow> files \<times> (py_exception + step1_result)" where
  "step1 a e files0 =
     (if (case threads a of None \<Rightarrow> False | Some t \<Rightarrow> t \<le> 0)
      then (files0, Inl (ValueError ''max_workers must be greater than 0''))
      else
        (case snd (parse_input e) of
           Some ex \<Rightarrow> (files0, Inl ex)
         | None \<Rightarrow>
             (case submit_all (chunk a) (main_standard_aa (keep_uo a)) (fst (parse_input e)) of
                (n, futures) \<Rightarrow>
                  (case collect (as_completed futures (completion e))
                          \<lparr>total_kept = 0, total_removed = 0, temp_files = [], fs = files0\<rparr> of
                     (st, Some ex) \<Rightarrow> (fs st, Inl ex)
                   | (st, None) \<Rightarrow>
                       (fs st, Inr \<lparr>input_count = n,
                                    after_aa_filter = total_kept st,
                                    removed_nonstandard_aa = total_removed st,
                                    step1_output = concat (temp_files st)\<rparr>)))))"

section \<open>Step 4: renaming duplicate identifiers\<close>

text \<open>\<^verbatim>\<open>str\<close> of a Python integer, in decimal.\<close>

fun str_nat :: "nat \<Rightarrow> string" where
  "str_nat n =
     (if n < 10 then [char_of (48 + n)]
      else str_nat (n div 10) @ [char_of (48 + n mod 10)])"

declare str_nat.simps [simp del]

definition str_int :: "int \<Rightarrow> string" where
  "str_int i = (if i < 0 then ''-'' @ str_nat (nat (- i)) else str_nat (nat i))"

text \<open>
  The loop of step 4: the state is \<^verbatim>\<open>id_count\<close>, \<^verbatim>\<open>unique_ids\<close>,
  \<^verbatim>\<open>duplicate_ids\<close> and the records written so far.
\<close>

fun rename_loop ::
  "seq_record list \<Rightarrow> (string \<rightharpoonup> int) \<times> int \<times> int \<times> seq_record list
     \<Rightarrow> (string \<rightharpoonup> int) \<times> int \<times> int \<times> seq_record list" where
  "rename_loop [] st = st"
| "rename_loop (record # records) (id_count, unique_ids, duplicate_ids, out) =
     (let main_id = id_str record
      in case id_count main_id of
           Some n \<Rightarrow>
             (let new_id = main_id @ ''_'' @ str_int (n + 1)
              in rename_loop records
                   (id_count(main_id \<mapsto> n + 1), unique_ids, duplicate_ids + 1,
                    out @ [record\<lparr>id_str := new_id, description := new_id\<rparr>]))
         | None \<Rightarrow>
             rename_loop records
               (id_count(main_id \<mapsto> 0), unique_ids + 1, duplicate_ids, out @ [record]))"

definition rename_duplicates :: "seq_record list \<Rightarrow> seq_record list" where
  "rename_duplicates records = snd (snd (snd (rename_loop records (Map.empty, 0, 0, []))))"

section \<open>The pipeline\<close>

record summary =
  step_input_sequences :: int
  step_after_aa_filter :: int
  step_removed_nonstandard_aa :: int
  step_after_length_filter :: int
  step_removed_by_length :: int
  step_after_cdhit :: int
  step_removed_by_cdhit :: int
  sum_unique_ids :: int
  sum_duplicate_ids :: int

definition main :: "args \<Rightarrow> env \<Rightarrow> files \<Rightarrow> files \<times> (py_exception + summary)" where
  "main a e files0 =
     (case step1 a e (files0\<lparr>report := Some []\<rparr>) of
        (files1, Inl ex) \<Rightarrow> (files1, Inl ex)
      | (files1, Inr r1) \<Rightarrow>
          (case (if skip_length a then Inr (step1_output r1) else seqkit e (step1_output r1)) of
             Inl ex \<Rightarrow> (files1, Inl ex)
           | Inr step2 \<Rightarrow>
               (let after_length = (if skip_length a then after_aa_filter r1 else int (length step2))
                in case (if skip_cdhit a then Inr (step2, None) else cd_hit e step2) of
                     Inl ex \<Rightarrow> (files1, Inl ex)
                   | Inr (step3, clstr) \<Rightarrow>
                       (let files3 = (case clstr of None \<Rightarrow> files1
                                      | Some c \<Rightarrow> files1\<lparr>output_clstr := Some c\<rparr>);
                            after_cdhit = (if skip_cdhit a then after_length else int (length step3))
                        in case rename_loop step3 (Map.empty, 0, 0, []) of
                             (id_count, unique_ids, duplicate_ids, step4) \<Rightarrow>
                               (files3\<lparr>final_output := Some step4\<rparr>,
                                Inr \<lparr>step_input_sequences = input_count r1,
                                     step_after_aa_filter = after_aa_filter r1,
                                     step_removed_nonstandard_aa = removed_nonstandard_aa r1,
                                     step_after_length_filter = after_length,
                                     step_removed_by_length = after_aa_filter r1 - after_length,
                                     step_after_cdhit = after_cdhit,
                                     step_removed_by_cdhit = after_length - after_cdhit,
                                     sum_unique_ids = unique_ids,
                                     sum_duplicate_ids = duplicate_ids\<rparr>)))))"

text \<open>The exit status of the process: an exception that leaves \<^verbatim>\<open>main\<close> gives 1.\<close>

definition exit_status :: "py_exception + summary \<Rightarrow> int" where
  "exit_status r = (case r of Inl ex \<Rightarrow> 1 | Inr s \<Rightarrow> 0)"

section \<open>Properties of the alphabet filter\<close>

lemma filter_positions:
  "filter P xs = map (\<lambda>i. xs ! i) (filter (\<lambda>i. P (xs ! i)) [0..<length xs])"
proof -
  have "filter P xs = filter P (map (\<lambda>i. xs ! i) [0..<length xs])"
    by (simp add: map_nth)
  also have "\<dots> = map (\<lambda>i. xs ! i) (filter (\<lambda>i. P (xs ! i)) [0..<length xs])"
    by (simp add: filter_map comp_def)
  finally show ?thesis .
qed

lemma map_filter_positions:
  "map f (filter P xs) = map (\<lambda>i. f (xs ! i)) (filter (\<lambda>i. P (xs ! i)) [0..<length xs])"
proof -
  have "map f (filter P xs) = map f (map (\<lambda>i. xs ! i) (filter (\<lambda>i. P (xs ! i)) [0..<length xs]))"
    using filter_positions [of P xs] by simp
  then show ?thesis by (simp add: comp_def)
qed

lemma sorted_filter_upt: "sorted_wrt (<) (filter Q [0..<n])"
  by (rule sorted_wrt_filter) simp

lemma process_chunk_loop_eq:
  "process_chunk_loop records aa (kept, removed) =
     (case find (\<lambda>r. \<not> list_all (\<lambda>c. (of_char c :: nat) < 128) (seq r)) records of
        None \<Rightarrow>
          Inr (kept @ filter (\<lambda>r. set (upper (seq r)) \<subseteq> aa) records,
               removed @ map (\<lambda>r. (id_str r, upper (seq r)))
                           (filter (\<lambda>r. \<not> set (upper (seq r)) \<subseteq> aa) records))
      | Some r \<Rightarrow>
          Inl (UnicodeDecodeError (seq r)
                 (length (takeWhile (\<lambda>c. (of_char c :: nat) < 128) (seq r)))))"
  by (induction records arbitrary: kept removed)
     (simp_all add: str_seq_def Let_def split: option.splits)

lemma process_chunk_eq:
  "process_chunk records aa =
     (case find (\<lambda>r. \<not> list_all (\<lambda>c. (of_char c :: nat) < 128) (seq r)) records of
        None \<Rightarrow>
          Inr (filter (\<lambda>r. set (upper (seq r)) \<subseteq> aa) records,
               map (\<lambda>r. (id_str r, upper (seq r)))
                 (filter (\<lambda>r. \<not> set (upper (seq r)) \<subseteq> aa) records))
      | Some r \<Rightarrow>
          Inl (UnicodeDecodeError (seq r)
                 (length (takeWhile (\<lambda>c. (of_char c :: nat) < 128) (seq r)))))"
  by (simp add: process_chunk_def process_chunk_loop_eq split: option.splits)

lemma process_chunk_ascii:
  assumes "\<forall>r\<in>set records. \<forall>c\<in>set (seq r). (of_char c :: nat) < 128"
  shows "process_chunk records aa =
     Inr (filter (\<lambda>r. set (upper (seq r)) \<subseteq> aa) records,
          map (\<lambda>r. (id_str r, upper (seq r)))
            (filter (\<lambda>r. \<not> set (upper (seq r)) \<subseteq> aa) records))"
proof -
  have "find (\<lambda>r. \<not> list_all (\<lambda>c. (of_char c :: nat) < 128) (seq r)) records = None"
    using assms by (simp add: find_None_iff list_all_iff)
  then show ?thesis by (simp add: process_chunk_eq)
qed

lemma process_chunk_non_ascii:
  assumes "\<exists>r\<in>set records. \<exists>c\<in>set (seq r). 128 \<le> (of_char c :: nat)"
  shows "\<exists>r\<in>set records. (\<exists>c\<in>set (seq r). 128 \<le> (of_char c :: nat))
     \<and> process_chunk records aa =
         Inl (UnicodeDecodeError (seq r)
                (length (takeWhile (\<lambda>c. (of_char c :: nat) < 128) (seq r))))"
proof -
  let ?bad = "\<lambda>r. \<not> list_all (\<lambda>c. (of_char c :: nat) < 128) (seq r)"
  from assms have "\<exists>r. r \<in> set records \<and> ?bad r"
    by (auto simp add: list_all_iff not_less)
  then have "find ?bad records \<noteq> None"
    by (simp add: find_None_iff)
  then obtain r where f: "find ?bad records = Some r" by blast
  then have "r \<in> set records" and "?bad r"
    by (auto simp add: find_Some_iff)
  then have "r \<in> set records" and "\<exists>c\<in>set (seq r). 128 \<le> (of_char c :: nat)"
    by (auto simp add: list_all_iff not_less)
  moreover have "process_chunk records aa =
         Inl (UnicodeDecodeError (seq r)
                (length (takeWhile (\<lambda>c. (of_char c :: nat) < 128) (seq r))))"
    using f by (simp add: process_chunk_eq)
  ultimately show ?thesis by blast
qed

lemma process_chunk_Inl:
  assumes "process_chunk records aa = Inl ex"
  shows "\<exists>r\<in>set records. (\<exists>c\<in>set (seq r). 128 \<le> (of_char c :: nat))
     \<and> ex = UnicodeDecodeError (seq r)
                (length (takeWhile (\<lambda>c. (of_char c :: nat) < 128) (seq r)))"
proof (cases "\<forall>r\<in>set records. \<forall>c\<in>set (seq r). (of_char c :: nat) < 128")
  case True
  from process_chunk_ascii [OF True, of aa] assms show ?thesis by simp
next
  case False
  then have "\<exists>r\<in>set records. \<exists>c\<in>set (seq r). 128 \<le> (of_char c :: nat)"
    by (auto simp add: not_less)
  from process_chunk_non_ascii [OF this, of aa] assms show ?thesis by auto
qed






text \<open>
  Claim C1, as stated, fails: on a batch of one record whose sequence holds the two bytes
  of a non-ASCII letter the filter raises and returns no partition at all.
\<close>

theorem partition_counterexample:
  "process_chunk
     [\<lparr>id_str = ''b'', name = ''b'', description = ''b'',
       seq = [CHR ''A'', CHR 0xC3, CHR 0x9F, CHR ''C'']\<rparr>]
     (main_standard_aa False)
   = Inl (UnicodeDecodeError [CHR ''A'', CHR 0xC3, CHR 0x9F, CHR ''C''] 1)"
  by (simp add: process_chunk_def str_seq_def)

text \<open>
  Claim C1, amended. For every batch whose sequences hold ASCII bytes only, and every
  alphabet, the filter returns a kept and a removed list that split the batch
  exhaustively and disjointly: together they are as long as the batch, and there are
  two increasing lists of positions \<open>ks\<close> and \<open>rs\<close>, disjoint and together all
  positions of the batch, such that the kept list is the records at \<open>ks\<close> and the
  removed list is the (identifier, upper-cased sequence) pairs of the records at \<open>rs\<close>.
\<close>

theorem process_chunk_partition:
  assumes "\<forall>r\<in>set records. \<forall>c\<in>set (seq r). (of_char c :: nat) < 128"
  shows "\<exists>kept removed. process_chunk records aa = Inr (kept, removed)
   \<and> length kept + length removed = length records
   \<and> (\<exists>ks rs. sorted_wrt (<) ks \<and> sorted_wrt (<) rs
        \<and> set ks \<union> set rs = {0..<length records} \<and> set ks \<inter> set rs = {}
        \<and> kept = map (\<lambda>i. records ! i) ks
        \<and> removed = map (\<lambda>i. (id_str (records ! i), upper (seq (records ! i)))) rs)"
proof -
  let ?P = "\<lambda>r. set (upper (seq r)) \<subseteq> aa"
  let ?ks = "filter (\<lambda>i. ?P (records ! i)) [0..<length records]"
  let ?rs = "filter (\<lambda>i. \<not> ?P (records ! i)) [0..<length records]"
  let ?kept = "filter ?P records"
  let ?removed = "map (\<lambda>r. (id_str r, upper (seq r))) (filter (\<lambda>r. \<not> ?P r) records)"
  have 0: "process_chunk records aa = Inr (?kept, ?removed)"
    by (rule process_chunk_ascii [OF assms])
  have len: "length ?kept + length ?removed = length records"
    using sum_length_filter_compl [of ?P records] by simp
  have 1: "sorted_wrt (<) ?ks" "sorted_wrt (<) ?rs"
    by (rule sorted_filter_upt)+
  have 2: "set ?ks \<union> set ?rs = {0..<length records}" "set ?ks \<inter> set ?rs = {}"
    by auto
  have 3: "?kept = map (\<lambda>i. records ! i) ?ks"
    by (rule filter_positions)
  have 4: "?removed = map (\<lambda>i. (id_str (records ! i), upper (seq (records ! i)))) ?rs"
    by (rule map_filter_positions)
  from 1 2 3 4 have "\<exists>ks rs. sorted_wrt (<) ks \<and> sorted_wrt (<) rs
        \<and> set ks \<union> set rs = {0..<length records} \<and> set ks \<inter> set rs = {}
        \<and> ?kept = map (\<lambda>i. records ! i) ks
        \<and> ?removed = map (\<lambda>i. (id_str (records ! i), upper (seq (records ! i)))) rs"
    by blast
  with 0 len show ?thesis by blast
qed

theorem process_chunk_partition_witness:
  "list_all (\<lambda>r. list_all (\<lambda>c. (of_char c :: nat) < 128) (seq r))
     [\<lparr>id_str = ''k'', name = ''k'', description = ''k'', seq = ''acdefg''\<rparr>,
      \<lparr>id_str = ''x'', name = ''x'', description = ''x'', seq = ''acdXfg''\<rparr>]
   \<and> (\<exists>kept removed.
        process_chunk [\<lparr>id_str = ''k'', name = ''k'', description = ''k'', seq = ''acdefg''\<rparr>,
                       \<lparr>id_str = ''x'', name = ''x'', description = ''x'', seq = ''acdXfg''\<rparr>]
          (main_standard_aa False) = Inr (kept, removed)
        \<and> length kept + length removed = 2
        \<and> kept = [\<lparr>id_str = ''k'', name = ''k'', description = ''k'', seq = ''acdefg''\<rparr>]
        \<and> removed = [(''x'', ''ACDXFG'')])"
proof -
  have a: "\<forall>r\<in>set [\<lparr>id_str = ''k'', name = ''k'', description = ''k'', seq = ''acdefg''\<rparr>,
               \<lparr>id_str = ''x'', name = ''x'', description = ''x'', seq = ''acdXfg''\<rparr>].
      \<forall>c\<in>set (seq r). (of_char c :: nat) < 128"
    by simp
  have u: "upper ''acdefg'' = ''ACDEFG''" "upper ''acdXfg'' = ''ACDXFG''"
    by code_simp+
  have e: "process_chunk [\<lparr>id_str = ''k'', name = ''k'', description = ''k'', seq = ''acdefg''\<rparr>,
                       \<lparr>id_str = ''x'', name = ''x'', description = ''x'', seq = ''acdXfg''\<rparr>]
          (main_standard_aa False)
        = Inr ([\<lparr>id_str = ''k'', name = ''k'', description = ''k'', seq = ''acdefg''\<rparr>],
               [(''x'', ''ACDXFG'')])"
    by (simp add: process_chunk_ascii [OF a] u main_standard_aa_def)
  from process_chunk_partition [OF a, of "main_standard_aa False"] a e
  show ?thesis by auto
qed






section \<open>Properties of the renaming pass\<close>

lemma map_nth_upt: "map (\<lambda>i. f (xs ! i)) [0..<length xs] = map f xs"
  by (rule nth_equalityI) simp_all

lemma rename_loop_out:
  assumes "\<forall>x. id_count x = (if count_list prev x = 0 then None
                               else Some (int (count_list prev x) - 1))"
  shows "snd (snd (snd (rename_loop records (id_count, u, d, out)))) =
     out @ map (\<lambda>i. let r = records ! i;
                       n = count_list (prev @ map id_str (take i records)) (id_str r);
                       new_id = id_str r @ ''_'' @ str_int (int n)
                   in if n = 0 then r else r\<lparr>id_str := new_id, description := new_id\<rparr>)
             [0..<length records]"
proof -
  define h where "h = (\<lambda>(r::seq_record) ctx.
     let n = count_list ctx (id_str r);
         new_id = id_str r @ ''_'' @ str_int (int n)
     in if n = 0 then r else r\<lparr>id_str := new_id, description := new_id\<rparr>)"
  have step: "map (\<lambda>i. h ((r # rs) ! i) (p @ map id_str (take i (r # rs)))) [0..<Suc (length rs)]
      = h r p # map (\<lambda>i. h (rs ! i) ((p @ [id_str r]) @ map id_str (take i rs))) [0..<length rs]"
    for r rs p
  proof -
    have "[0..<Suc (length rs)] = 0 # map Suc [0..<length rs]"
      by (simp add: upt_conv_Cons map_Suc_upt del: upt_Suc)
    then show ?thesis by (simp add: comp_def del: upt_Suc)
  qed
  have main: "snd (snd (snd (rename_loop records (m, u, d, out)))) =
      out @ map (\<lambda>i. h (records ! i) (p @ map id_str (take i records))) [0..<length records]"
    if "\<forall>x. m x = (if count_list p x = 0 then None else Some (int (count_list p x) - 1))"
    for m p u d out
    using that
  proof (induction records arbitrary: m u d out p)
    case Nil
    then show ?case by simp
  next
    case (Cons r rs)
    let ?x = "id_str r"
    let ?n = "count_list p ?x"
    show ?case
    proof (cases "?n = 0")
      case True
      then have none: "m ?x = None" using Cons.prems by simp
      have inv: "\<forall>x. (m(?x \<mapsto> 0)) x =
          (if count_list (p @ [?x]) x = 0 then None
           else Some (int (count_list (p @ [?x]) x) - 1))"
        using Cons.prems True by auto
      have hd: "h r p = r" using True by (simp add: h_def)
      have "snd (snd (snd (rename_loop (r # rs) (m, u, d, out)))) =
            snd (snd (snd (rename_loop rs (m(?x \<mapsto> 0), u + 1, d, out @ [r]))))"
        using none by simp
      also have "\<dots> = (out @ [r]) @
          map (\<lambda>i. h (rs ! i) ((p @ [?x]) @ map id_str (take i rs))) [0..<length rs]"
        by (rule Cons.IH [OF inv])
      finally show ?thesis
        using step [of r rs p] hd by simp
    next
      case False
      then have some: "m ?x = Some (int ?n - 1)" using Cons.prems by simp
      have inv: "\<forall>x. (m(?x \<mapsto> int ?n - 1 + 1)) x =
          (if count_list (p @ [?x]) x = 0 then None
           else Some (int (count_list (p @ [?x]) x) - 1))"
        using Cons.prems False by auto
      let ?new = "?x @ ''_'' @ str_int (int ?n - 1 + 1)"
      have hd: "h r p = r\<lparr>id_str := ?new, description := ?new\<rparr>"
        using False by (simp add: h_def Let_def)
      have "snd (snd (snd (rename_loop (r # rs) (m, u, d, out)))) =
            snd (snd (snd (rename_loop rs (m(?x \<mapsto> int ?n - 1 + 1), u, d + 1,
                  out @ [r\<lparr>id_str := ?new, description := ?new\<rparr>]))))"
        using some by (simp add: Let_def)
      also have "\<dots> = (out @ [r\<lparr>id_str := ?new, description := ?new\<rparr>]) @
          map (\<lambda>i. h (rs ! i) ((p @ [?x]) @ map id_str (take i rs))) [0..<length rs]"
        by (rule Cons.IH [OF inv])
      finally show ?thesis
        using step [of r rs p] hd by simp
    qed
  qed
  show ?thesis
    using main [OF assms, of u d out] by (simp add: h_def Let_def)
qed

lemma rename_duplicates_eq:
  "rename_duplicates records =
     map (\<lambda>i. let r = records ! i;
                  n = count_list (map id_str (take i records)) (id_str r);
                  new_id = id_str r @ ''_'' @ str_int (int n)
              in if n = 0 then r else r\<lparr>id_str := new_id, description := new_id\<rparr>)
       [0..<length records]"
  using rename_loop_out [of Map.empty "[]" records 0 0 "[]"]
  by (simp add: rename_duplicates_def)

text \<open>
  Claim C6. Renaming of duplicate identifiers, in stream order: the record at position
  \<open>i\<close> keeps its identifier when no earlier record has it (first occurrence), and
  otherwise gets \<open>identifier_n\<close>, where \<open>n\<close> is the number of earlier records with that
  identifier, so the n-th duplicate gets the suffix \<open>n\<close>, counted from 1. Identifiers
  A, B, A, A, C become A, B, A_1, A_2, C.
\<close>

theorem rename_ids:
  "map id_str (rename_duplicates records) =
     map (\<lambda>i. let x = id_str (records ! i);
                  n = count_list (map id_str (take i records)) x
              in if n = 0 then x else x @ ''_'' @ str_int (int n))
       [0..<length records]
   \<and> map id_str (rename_duplicates
        [\<lparr>id_str = ''A'', name = n1, description = d1, seq = s1\<rparr>,
         \<lparr>id_str = ''B'', name = n2, description = d2, seq = s2\<rparr>,
         \<lparr>id_str = ''A'', name = n3, description = d3, seq = s3\<rparr>,
         \<lparr>id_str = ''A'', name = n4, description = d4, seq = s4\<rparr>,
         \<lparr>id_str = ''C'', name = n5, description = d5, seq = s5\<rparr>])
       = [''A'', ''B'', ''A_1'', ''A_2'', ''C'']"
proof
  show "map id_str (rename_duplicates records) =
     map (\<lambda>i. let x = id_str (records ! i);
                  n = count_list (map id_str (take i records)) x
              in if n = 0 then x else x @ ''_'' @ str_int (int n))
       [0..<length records]"
    by (simp add: rename_duplicates_eq Let_def)
  have "str_int 1 = ''1''" "str_int 2 = ''2''"
    by code_simp+
  then show "map id_str (rename_duplicates
        [\<lparr>id_str = ''A'', name = n1, description = d1, seq = s1\<rparr>,
         \<lparr>id_str = ''B'', name = n2, description = d2, seq = s2\<rparr>,
         \<lparr>id_str = ''A'', name = n3, description = d3, seq = s3\<rparr>,
         \<lparr>id_str = ''A'', name = n4, description = d4, seq = s4\<rparr>,
         \<lparr>id_str = ''C'', name = n5, description = d5, seq = s5\<rparr>])
       = [''A'', ''B'', ''A_1'', ''A_2'', ''C'']"
    by (simp add: rename_duplicates_def Let_def)
qed

text \<open>
  Claim C10. A first occurrence is written as it was read, all fields unchanged. A
  renamed duplicate is the record read with its identifier and its description both
  set to the new identifier (the old description is lost); its sequence and its name
  are those of the record read.
\<close>

theorem rename_frame:
  "rename_duplicates records =
     map (\<lambda>i. let r = records ! i;
                  n = count_list (map id_str (take i records)) (id_str r);
                  new_id = id_str r @ ''_'' @ str_int (int n)
              in if n = 0 then r else r\<lparr>id_str := new_id, description := new_id\<rparr>)
       [0..<length records]
   \<and> map seq (rename_duplicates records) = map seq records
   \<and> map name (rename_duplicates records) = map name records"
proof (intro conjI)
  show "rename_duplicates records =
     map (\<lambda>i. let r = records ! i;
                  n = count_list (map id_str (take i records)) (id_str r);
                  new_id = id_str r @ ''_'' @ str_int (int n)
              in if n = 0 then r else r\<lparr>id_str := new_id, description := new_id\<rparr>)
       [0..<length records]"
    by (rule rename_duplicates_eq)
  have "map seq (rename_duplicates records) = map (\<lambda>i. seq (records ! i)) [0..<length records]"
    by (simp add: rename_duplicates_eq Let_def)
  then show "map seq (rename_duplicates records) = map seq records"
    by (simp add: map_nth_upt)
  have "map name (rename_duplicates records) = map (\<lambda>i. name (records ! i)) [0..<length records]"
    by (simp add: rename_duplicates_eq Let_def)
  then show "map name (rename_duplicates records) = map name records"
    by (simp add: map_nth_upt)
qed


section \<open>Properties of step 1\<close>

lemma read_loop_batches:
  "\<exists>bs chnk'. read_loop c aa records (n, futures, chnk) =
       (n + int (length records), futures @ map (\<lambda>b. executor_submit b aa) bs, chnk')
     \<and> concat bs @ chnk' = chnk @ records \<and> [] \<notin> set bs"
proof (induction records arbitrary: n futures chnk)
  case Nil
  have "read_loop c aa [] (n, futures, chnk) =
       (n + int (length ([]::seq_record list)), futures @ map (\<lambda>b. executor_submit b aa) [], chnk)
     \<and> concat [] @ chnk = chnk @ [] \<and> [] \<notin> set ([]::seq_record list list)"
    by simp
  then show ?case by blast
next
  case (Cons r rs)
  show ?case
  proof (cases "int (length (chnk @ [r])) \<ge> c")
    case True
    from Cons.IH [of "n + 1" "futures @ [executor_submit (chnk @ [r]) aa]" "[]"]
    obtain bs chnk' where
      1: "read_loop c aa rs (n + 1, futures @ [executor_submit (chnk @ [r]) aa], []) =
           (n + 1 + int (length rs),
            (futures @ [executor_submit (chnk @ [r]) aa]) @ map (\<lambda>b. executor_submit b aa) bs, chnk')"
      and 2: "concat bs @ chnk' = [] @ rs" and 3: "[] \<notin> set bs"
      by blast
    have "read_loop c aa (r # rs) (n, futures, chnk) =
       (n + int (length (r # rs)),
        futures @ map (\<lambda>b. executor_submit b aa) ((chnk @ [r]) # bs), chnk')
     \<and> concat ((chnk @ [r]) # bs) @ chnk' = chnk @ r # rs \<and> [] \<notin> set ((chnk @ [r]) # bs)"
      using True 1 2 3 by (simp add: Let_def)
    then show ?thesis by blast
  next
    case False
    from Cons.IH [of "n + 1" futures "chnk @ [r]"]
    obtain bs chnk' where
      1: "read_loop c aa rs (n + 1, futures, chnk @ [r]) =
           (n + 1 + int (length rs), futures @ map (\<lambda>b. executor_submit b aa) bs, chnk')"
      and 2: "concat bs @ chnk' = (chnk @ [r]) @ rs" and 3: "[] \<notin> set bs"
      by blast
    have "read_loop c aa (r # rs) (n, futures, chnk) =
       (n + int (length (r # rs)), futures @ map (\<lambda>b. executor_submit b aa) bs, chnk')
     \<and> concat bs @ chnk' = chnk @ r # rs \<and> [] \<notin> set bs"
      using False 1 2 3 by (simp add: Let_def)
    then show ?thesis by blast
  qed
qed

lemma submit_all_batches:
  "\<exists>bs. concat bs = records \<and> [] \<notin> set bs
     \<and> submit_all c aa records =
         (int (length records), map (\<lambda>b. process_chunk b aa) bs)"
proof -
  from read_loop_batches [of c aa records 0 "[]" "[]"]
  obtain bs chnk' where
    1: "read_loop c aa records (0, [], []) =
          (int (length records), map (\<lambda>b. executor_submit b aa) bs, chnk')"
    and 2: "concat bs @ chnk' = records" and 3: "[] \<notin> set bs"
    by auto
  show ?thesis
  proof (cases "chnk' = []")
    case True
    with 1 2 3 have "concat bs = records \<and> [] \<notin> set bs
     \<and> submit_all c aa records =
         (int (length records), map (\<lambda>b. process_chunk b aa) bs)"
      by (simp add: submit_all_def executor_submit_def)
    then show ?thesis by blast
  next
    case False
    with 1 2 3 have "concat (bs @ [chnk']) = records \<and> [] \<notin> set (bs @ [chnk'])
     \<and> submit_all c aa records =
         (int (length records), map (\<lambda>b. process_chunk b aa) (bs @ [chnk']))"
      by (auto simp add: submit_all_def executor_submit_def)
    then show ?thesis by blast
  qed
qed

lemma as_completed_map:
  assumes "mset order = mset [0..<length bs]"
  shows "\<exists>ds. mset ds = mset bs \<and> as_completed (map f bs) order = map f ds"
proof -
  from assms have "set order = set [0..<length bs]" by (rule mset_eq_setD)
  then have in_range: "\<forall>i\<in>set order. i < length bs" by simp
  have "mset (map (\<lambda>i. bs ! i) order) = image_mset (\<lambda>i. bs ! i) (mset [0..<length bs])"
    using assms by simp
  also have "\<dots> = mset (map (\<lambda>i. bs ! i) [0..<length bs])" by simp
  also have "\<dots> = mset bs" by (simp add: map_nth)
  finally have 1: "mset (map (\<lambda>i. bs ! i) order) = mset bs" .
  have 2: "as_completed (map f bs) order = map f (map (\<lambda>i. bs ! i) order)"
    using in_range by (simp add: as_completed_def)
  from 1 2 show ?thesis by blast
qed

lemma write_removed_eq:
  "write_removed removed content = content @ concat (map report_line removed)"
  by (induction removed arbitrary: content) simp_all

lemma collect_results:
  "snd (collect (map Inr results) st) = None
   \<and> total_kept (fst (collect (map Inr results) st))
       = total_kept st + int (length (concat (map fst results)))
   \<and> total_removed (fst (collect (map Inr results) st))
       = total_removed st + int (length (concat (map snd results)))
   \<and> concat (temp_files (fst (collect (map Inr results) st)))
       = concat (temp_files st) @ concat (map fst results)
   \<and> fs (fst (collect (map Inr results) st))
       = (fs st)\<lparr>report :=
            (if concat (map snd results) = [] then report (fs st)
             else Some (open_append (report (fs st))
                        @ concat (map report_line (concat (map snd results)))))\<rparr>"
proof (induction results arbitrary: st)
  case Nil
  show ?case by simp
next
  case (Cons p results)
  obtain kept removed where p: "p = (kept, removed)" by (cases p)
  show ?case
    unfolding p
    by (simp add: Let_def Cons.IH write_removed_eq open_append_def)
qed

lemma mset_concat_cong:
  assumes "mset ds = mset bs"
  shows "mset (concat ds) = mset (concat bs)"
proof -
  have "mset (concat ds) = sum_mset (mset (map mset ds))"
    by (simp only: mset_concat sum_mset_sum_list)
  also have "mset (map mset ds) = mset (map mset bs)"
    using assms by simp
  also have "sum_mset (mset (map mset bs)) = mset (concat bs)"
    by (simp only: mset_concat sum_mset_sum_list)
  finally show ?thesis .
qed

lemma concat_filtered:
  "concat (map fst (map (\<lambda>b. (filter P b, map f (filter Q b))) ds)) = filter P (concat ds)"
  "concat (map snd (map (\<lambda>b. (filter P b, map f (filter Q b))) ds)) = map f (filter Q (concat ds))"
  by (simp_all add: comp_def filter_concat map_concat)

lemma collect_raises:
  assumes "\<exists>ex. Inl ex \<in> set futs"
  shows "\<exists>ex. Inl ex \<in> set futs \<and> snd (collect futs st) = Some ex"
  using assms
proof (induction futs arbitrary: st)
  case Nil
  then show ?case by simp
next
  case (Cons f futs)
  show ?case
  proof (cases f)
    case (Inl ex)
    then show ?thesis by auto
  next
    case (Inr p)
    obtain kept removed where p: "p = (kept, removed)" by (cases p)
    from Cons.prems Inr have "\<exists>ex. Inl ex \<in> set futs" by auto
    from Cons.IH [OF this] show ?thesis
      unfolding Inr p by (simp add: Let_def)
  qed
qed

lemma collect_frame:
  "final_output (fs (fst (collect futs st))) = final_output (fs st)
   \<and> output_clstr (fs (fst (collect futs st))) = output_clstr (fs st)"
proof (induction futs arbitrary: st)
  case Nil
  show ?case by simp
next
  case (Cons f futs)
  show ?case
  proof (cases f)
    case (Inl ex)
    then show ?thesis by simp
  next
    case (Inr p)
    obtain kept removed where p: "p = (kept, removed)" by (cases p)
    show ?thesis
      unfolding Inr p by (simp add: Let_def Cons.IH)
  qed
qed



lemma step1_ok:
  assumes thr: "case threads a of None \<Rightarrow> True | Some t \<Rightarrow> 0 < t"
    and parse: "parse_input e = (records, None)"
    and ord: "mset (completion e) =
        mset [0..<length (snd (submit_all (chunk a) (main_standard_aa (keep_uo a)) records))]"
    and ascii: "\<forall>r\<in>set records. \<forall>c\<in>set (seq r). (of_char c :: nat) < 128"
  shows "\<exists>kept rem.
      mset kept = mset (filter (\<lambda>r. set (upper (seq r)) \<subseteq> main_standard_aa (keep_uo a)) records)
    \<and> mset rem = mset (map (\<lambda>r. (id_str r, upper (seq r)))
         (filter (\<lambda>r. \<not> set (upper (seq r)) \<subseteq> main_standard_aa (keep_uo a)) records))
    \<and> step1 a e files0 =
        (files0\<lparr>report := (if rem = [] then report files0
                             else Some (open_append (report files0) @ concat (map report_line rem)))\<rparr>,
         Inr \<lparr>input_count = int (length records),
              after_aa_filter = int (length kept),
              removed_nonstandard_aa = int (length rem),
              step1_output = kept\<rparr>)"
proof -
  let ?aa = "main_standard_aa (keep_uo a)"
  let ?P = "\<lambda>r. set (upper (seq r)) \<subseteq> ?aa"
  let ?pair = "\<lambda>r. (id_str r, upper (seq r))"
  let ?pc = "\<lambda>b. (filter ?P b, map ?pair (filter (\<lambda>r. \<not> ?P r) b))"
  let ?st0 = "\<lparr>total_kept = 0, total_removed = 0, temp_files = [], fs = files0\<rparr>"
  from submit_all_batches [of records "chunk a" ?aa]
  obtain bs where bs: "concat bs = records"
    and sub0: "submit_all (chunk a) ?aa records =
                (int (length records), map (\<lambda>b. process_chunk b ?aa) bs)"
    by blast
  have "process_chunk b ?aa = Inr (?pc b)" if "b \<in> set bs" for b
  proof -
    from that bs have "set b \<subseteq> set records" by auto
    with ascii have "\<forall>r\<in>set b. \<forall>c\<in>set (seq r). (of_char c :: nat) < 128" by blast
    then show ?thesis by (rule process_chunk_ascii)
  qed
  then have "map (\<lambda>b. process_chunk b ?aa) bs = map (\<lambda>b. Inr (?pc b)) bs"
    by simp
  with sub0 have sub: "submit_all (chunk a) ?aa records =
                (int (length records), map (\<lambda>b. Inr (?pc b)) bs)"
    by simp
  from ord sub have "mset (completion e) = mset [0..<length bs]" by simp
  from as_completed_map [OF this, of "\<lambda>b. Inr (?pc b)"]
  obtain ds where ds: "mset ds = mset bs"
    and compl: "as_completed (map (\<lambda>b. Inr (?pc b)) bs) (completion e)
                 = map (\<lambda>b. Inr (?pc b)) ds"
    by blast
  let ?results = "map ?pc ds"
  let ?c = "collect (map Inr ?results) ?st0"
  let ?kept = "concat (map fst ?results)"
  let ?rem = "concat (map snd ?results)"
  have compl': "as_completed (map (\<lambda>b. Inr (?pc b)) bs) (completion e) = map Inr ?results"
    using compl by (simp add: comp_def)
  have rec: "mset (concat ds) = mset records"
    using mset_concat_cong [OF ds] bs by simp
  have kept: "mset ?kept = mset (filter ?P records)"
    using rec by (simp only: concat_filtered mset_filter)
  have rem: "mset ?rem = mset (map ?pair (filter (\<lambda>r. \<not> ?P r) records))"
    using rec by (simp only: concat_filtered mset_filter mset_map)
  from collect_results [of ?results ?st0]
  have c_none: "snd ?c = None"
    and c_kept: "total_kept (fst ?c) = int (length ?kept)"
    and c_rem: "total_removed (fst ?c) = int (length ?rem)"
    and c_tmp: "concat (temp_files (fst ?c)) = ?kept"
    and c_fs: "fs (fst ?c) = files0\<lparr>report := (if ?rem = [] then report files0
                 else Some (open_append (report files0) @ concat (map report_line ?rem)))\<rparr>"
    by simp_all
  have c_pair: "?c = (fst ?c, None)"
    using c_none by (simp add: prod_eq_iff)
  have thr': "\<not> (case threads a of None \<Rightarrow> False | Some t \<Rightarrow> t \<le> 0)"
    using thr by (simp split: option.splits)
  have "step1 a e files0 =
        (case ?c of (st, Some ex) \<Rightarrow> (fs st, Inl ex)
                  | (st, None) \<Rightarrow>
                       (fs st, Inr \<lparr>input_count = int (length records),
                                    after_aa_filter = total_kept st,
                                    removed_nonstandard_aa = total_removed st,
                                    step1_output = concat (temp_files st)\<rparr>))"
    unfolding step1_def using thr' parse sub compl' by simp
  also have "\<dots> = (fs (fst ?c), Inr \<lparr>input_count = int (length records),
                                    after_aa_filter = total_kept (fst ?c),
                                    removed_nonstandard_aa = total_removed (fst ?c),
                                    step1_output = concat (temp_files (fst ?c))\<rparr>)"
    by (subst c_pair) simp
  finally have "step1 a e files0 =
        (files0\<lparr>report := (if ?rem = [] then report files0
                             else Some (open_append (report files0) @ concat (map report_line ?rem)))\<rparr>,
         Inr \<lparr>input_count = int (length records),
              after_aa_filter = int (length ?kept),
              removed_nonstandard_aa = int (length ?rem),
              step1_output = ?kept\<rparr>)"
    by (simp only: c_kept c_rem c_tmp c_fs)
  with kept rem show ?thesis by blast
qed

lemma step1_raises:
  assumes thr: "case threads a of None \<Rightarrow> True | Some t \<Rightarrow> 0 < t"
    and parse: "parse_input e = (records, None)"
    and ord: "mset (completion e) =
        mset [0..<length (snd (submit_all (chunk a) (main_standard_aa (keep_uo a)) records))]"
    and bad: "\<exists>r\<in>set records. \<exists>c\<in>set (seq r). 128 \<le> (of_char c :: nat)"
  shows "\<exists>r\<in>set records. (\<exists>c\<in>set (seq r). 128 \<le> (of_char c :: nat))
    \<and> snd (step1 a e files0) =
         Inl (UnicodeDecodeError (seq r)
                (length (takeWhile (\<lambda>c. (of_char c :: nat) < 128) (seq r))))
    \<and> final_output (fst (step1 a e files0)) = final_output files0
    \<and> output_clstr (fst (step1 a e files0)) = output_clstr files0"
proof -
  let ?aa = "main_standard_aa (keep_uo a)"
  let ?st0 = "\<lparr>total_kept = 0, total_removed = 0, temp_files = [], fs = files0\<rparr>"
  from submit_all_batches [of records "chunk a" ?aa]
  obtain bs where bs: "concat bs = records"
    and sub: "submit_all (chunk a) ?aa records =
                (int (length records), map (\<lambda>b. process_chunk b ?aa) bs)"
    by blast
  from ord sub have "mset (completion e) = mset [0..<length bs]" by simp
  from as_completed_map [OF this, of "\<lambda>b. process_chunk b ?aa"]
  obtain ds where ds: "mset ds = mset bs"
    and compl: "as_completed (map (\<lambda>b. process_chunk b ?aa) bs) (completion e)
                 = map (\<lambda>b. process_chunk b ?aa) ds"
    by blast
  let ?futs = "map (\<lambda>b. process_chunk b ?aa) ds"
  let ?c = "collect ?futs ?st0"
  from ds have sets: "set ds = set bs" by (rule mset_eq_setD)
  from bad obtain r0 where r0: "r0 \<in> set records"
    and r0bad: "\<exists>c\<in>set (seq r0). 128 \<le> (of_char c :: nat)"
    by blast
  from r0 bs have "r0 \<in> set (concat bs)" by simp
  then obtain b where b: "b \<in> set bs" and r0b: "r0 \<in> set b" by auto
  from r0b r0bad have badb: "\<exists>r\<in>set b. \<exists>c\<in>set (seq r). 128 \<le> (of_char c :: nat)"
    by blast
  from process_chunk_non_ascii [OF badb, of ?aa]
  obtain ex0 where "process_chunk b ?aa = Inl ex0" by blast
  with b sets have "\<exists>ex. Inl ex \<in> set ?futs" by force
  from collect_raises [OF this, of ?st0]
  obtain ex where ex_in: "Inl ex \<in> set ?futs" and c_some: "snd ?c = Some ex"
    by blast
  from ex_in obtain d where d: "d \<in> set ds" and pd: "process_chunk d ?aa = Inl ex"
    by auto
  from process_chunk_Inl [OF pd]
  obtain r where r: "r \<in> set d" and rbad: "\<exists>c\<in>set (seq r). 128 \<le> (of_char c :: nat)"
    and ex: "ex = UnicodeDecodeError (seq r)
                (length (takeWhile (\<lambda>c. (of_char c :: nat) < 128) (seq r)))"
    by blast
  from r d sets bs have rin: "r \<in> set records" by auto
  have c_pair: "?c = (fst ?c, Some ex)"
    using c_some by (simp add: prod_eq_iff)
  have thr': "\<not> (case threads a of None \<Rightarrow> False | Some t \<Rightarrow> t \<le> 0)"
    using thr by (simp split: option.splits)
  have "step1 a e files0 =
        (case ?c of (st, Some ex) \<Rightarrow> (fs st, Inl ex)
                  | (st, None) \<Rightarrow>
                       (fs st, Inr \<lparr>input_count = int (length records),
                                    after_aa_filter = total_kept st,
                                    removed_nonstandard_aa = total_removed st,
                                    step1_output = concat (temp_files st)\<rparr>))"
    unfolding step1_def using thr' parse sub compl by simp
  also have "\<dots> = (fs (fst ?c), Inl ex)"
    by (subst c_pair) simp
  finally have s: "step1 a e files0 = (fs (fst ?c), Inl ex)" .
  from collect_frame [of ?futs ?st0]
  have "final_output (fs (fst ?c)) = final_output files0"
    and "output_clstr (fs (fst ?c)) = output_clstr files0"
    by simp_all
  with s ex have "snd (step1 a e files0) =
         Inl (UnicodeDecodeError (seq r)
                (length (takeWhile (\<lambda>c. (of_char c :: nat) < 128) (seq r))))
    \<and> final_output (fst (step1 a e files0)) = final_output files0
    \<and> output_clstr (fst (step1 a e files0)) = output_clstr files0"
    by simp
  with rin rbad show ?thesis by blast
qed

lemma main_report:
  "report (fst (main a e files0)) = report (fst (step1 a e (files0\<lparr>report := Some []\<rparr>)))"
  by (simp add: main_def Let_def split: prod.splits sum.splits option.splits)

lemma main_report_reset: "main a e (files0\<lparr>report := old\<rparr>) = main a e files0"
  by (simp add: main_def)

lemma main_step1_raises:
  assumes "snd (step1 a e (files0\<lparr>report := Some []\<rparr>)) = Inl ex"
  shows "main a e files0 = (fst (step1 a e (files0\<lparr>report := Some []\<rparr>)), Inl ex)"
proof -
  obtain files1 res where s: "step1 a e (files0\<lparr>report := Some []\<rparr>) = (files1, res)"
    by (cases "step1 a e (files0\<lparr>report := Some []\<rparr>)")
  with assms have "res = Inl ex" by simp
  with s show ?thesis by (simp add: main_def)
qed

lemma report_line_fmt: "report_line = (\<lambda>(rid, sq). rid @ [CHR 0x09] @ sq @ [CHR 0x0A])"
  by (auto simp add: report_line_def fun_eq_iff)

text \<open>
  Claim C3, as stated, fails: with the two records seq2 (ACDXFG) and b (a sequence with
  a non-ASCII letter), chunk size 1 gives two batches, and with the first one collected
  first the run ends with the line of seq2 in the report; chunk size 2 gives one batch
  and the run ends with an empty report. Neither run has final counts.
\<close>

theorem chunk_size_counterexample:
  "step1 \<lparr>threads = Some 1, chunk = 1, keep_uo = False, skip_length = True, skip_cdhit = True\<rparr>
     \<lparr>parse_input = ([\<lparr>id_str = ''seq2'', name = ''seq2'', description = ''seq2'', seq = ''ACDXFG''\<rparr>,
          \<lparr>id_str = ''b'', name = ''b'', description = ''b'', seq = [CHR ''A'', CHR 0xC3, CHR 0x9F, CHR ''C'']\<rparr>], None),
       completion = [0, 1], seqkit = Inr, cd_hit = (\<lambda>rs. Inr (rs, None))\<rparr>
     \<lparr>report = Some [], final_output = None, output_clstr = None\<rparr>
   = (\<lparr>report = Some (''seq2'' @ [CHR 0x09] @ ''ACDXFG'' @ [CHR 0x0A]), final_output = None, output_clstr = None\<rparr>,
      Inl (UnicodeDecodeError [CHR ''A'', CHR 0xC3, CHR 0x9F, CHR ''C''] 1))
   \<and> step1 \<lparr>threads = Some 1, chunk = 2, keep_uo = False, skip_length = True, skip_cdhit = True\<rparr>
     \<lparr>parse_input = ([\<lparr>id_str = ''seq2'', name = ''seq2'', description = ''seq2'', seq = ''ACDXFG''\<rparr>,
          \<lparr>id_str = ''b'', name = ''b'', description = ''b'', seq = [CHR ''A'', CHR 0xC3, CHR 0x9F, CHR ''C'']\<rparr>], None),
       completion = [0], seqkit = Inr, cd_hit = (\<lambda>rs. Inr (rs, None))\<rparr>
     \<lparr>report = Some [], final_output = None, output_clstr = None\<rparr>
   = (\<lparr>report = Some [], final_output = None, output_clstr = None\<rparr>,
      Inl (UnicodeDecodeError [CHR ''A'', CHR 0xC3, CHR 0x9F, CHR ''C''] 1))"
  by (simp add: step1_def submit_all_def executor_submit_def process_chunk_def str_seq_def as_completed_def
      main_standard_aa_def upper_def upper_char_def Let_def open_append_def report_line_def)

text \<open>
  Claim C3, amended. For a fixed list of input records whose sequences hold ASCII bytes
  only and a fixed alphabet, two runs of step 1 with any two chunk sizes (positive ones
  in particular) and any two completion orders of their futures both succeed, with the
  same count of kept and of removed records, the same multiset of kept records in the
  output of the step, and reports that are the lines of the same multiset of removed
  (identifier, upper-cased sequence) pairs. Only the batching and the order differ.
\<close>

theorem chunk_size_invariance:
  assumes "case threads a1 of None \<Rightarrow> True | Some t \<Rightarrow> 0 < t"
    and "case threads a2 of None \<Rightarrow> True | Some t \<Rightarrow> 0 < t"
    and "parse_input e1 = (records, None)"
    and "parse_input e2 = (records, None)"
    and "keep_uo a1 = keep_uo a2"
    and "mset (completion e1) =
        mset [0..<length (snd (submit_all (chunk a1) (main_standard_aa (keep_uo a1)) records))]"
    and "mset (completion e2) =
        mset [0..<length (snd (submit_all (chunk a2) (main_standard_aa (keep_uo a2)) records))]"
    and "\<forall>r\<in>set records. \<forall>c\<in>set (seq r). (of_char c :: nat) < 128"
  shows "\<exists>r1 r2 rem1 rem2.
      snd (step1 a1 e1 (files0\<lparr>report := Some []\<rparr>)) = Inr r1
    \<and> snd (step1 a2 e2 (files0\<lparr>report := Some []\<rparr>)) = Inr r2
    \<and> after_aa_filter r1 = after_aa_filter r2
    \<and> removed_nonstandard_aa r1 = removed_nonstandard_aa r2
    \<and> mset (step1_output r1) = mset (step1_output r2)
    \<and> report (fst (step1 a1 e1 (files0\<lparr>report := Some []\<rparr>)))
        = Some (concat (map (\<lambda>(rid, sq). rid @ [CHR 0x09] @ sq @ [CHR 0x0A]) rem1))
    \<and> report (fst (step1 a2 e2 (files0\<lparr>report := Some []\<rparr>)))
        = Some (concat (map (\<lambda>(rid, sq). rid @ [CHR 0x09] @ sq @ [CHR 0x0A]) rem2))
    \<and> mset rem1 = mset rem2"
proof -
  let ?f = "files0\<lparr>report := Some []\<rparr>"
  let ?P = "\<lambda>r. set (upper (seq r)) \<subseteq> main_standard_aa (keep_uo a1)"
  let ?pair = "\<lambda>r. (id_str r, upper (seq r))"
  from step1_ok [OF assms(1) assms(3) assms(6) assms(8), of ?f]
  obtain kept1 rem1 where
    k1: "mset kept1 = mset (filter ?P records)"
    and r1: "mset rem1 = mset (map ?pair (filter (\<lambda>r. \<not> ?P r) records))"
    and s1: "step1 a1 e1 ?f =
        (?f\<lparr>report := (if rem1 = [] then report ?f
                         else Some (open_append (report ?f) @ concat (map report_line rem1)))\<rparr>,
         Inr \<lparr>input_count = int (length records), after_aa_filter = int (length kept1),
              removed_nonstandard_aa = int (length rem1), step1_output = kept1\<rparr>)"
    by blast
  from step1_ok [OF assms(2) assms(4) assms(7) assms(8), of ?f] assms(5)
  obtain kept2 rem2 where
    k2: "mset kept2 = mset (filter ?P records)"
    and r2: "mset rem2 = mset (map ?pair (filter (\<lambda>r. \<not> ?P r) records))"
    and s2: "step1 a2 e2 ?f =
        (?f\<lparr>report := (if rem2 = [] then report ?f
                         else Some (open_append (report ?f) @ concat (map report_line rem2)))\<rparr>,
         Inr \<lparr>input_count = int (length records), after_aa_filter = int (length kept2),
              removed_nonstandard_aa = int (length rem2), step1_output = kept2\<rparr>)"
    by (simp only:) blast
  from k1 k2 have k: "mset kept1 = mset kept2" by simp
  from r1 r2 have r: "mset rem1 = mset rem2" by simp
  from k have lk: "length kept1 = length kept2" by (rule mset_eq_length)
  from r have lr: "length rem1 = length rem2" by (rule mset_eq_length)
  have "report (fst (step1 a1 e1 ?f)) = Some (concat (map report_line rem1))"
    by (simp add: s1 open_append_def)
  then have rep1: "report (fst (step1 a1 e1 ?f))
      = Some (concat (map (\<lambda>(rid, sq). rid @ [CHR 0x09] @ sq @ [CHR 0x0A]) rem1))"
    by (simp only: report_line_fmt)
  have "report (fst (step1 a2 e2 ?f)) = Some (concat (map report_line rem2))"
    by (simp add: s2 open_append_def)
  then have rep2: "report (fst (step1 a2 e2 ?f))
      = Some (concat (map (\<lambda>(rid, sq). rid @ [CHR 0x09] @ sq @ [CHR 0x0A]) rem2))"
    by (simp only: report_line_fmt)
  let ?r1 = "\<lparr>input_count = int (length records), after_aa_filter = int (length kept1),
              removed_nonstandard_aa = int (length rem1), step1_output = kept1\<rparr>"
  let ?r2 = "\<lparr>input_count = int (length records), after_aa_filter = int (length kept2),
              removed_nonstandard_aa = int (length rem2), step1_output = kept2\<rparr>"
  have res: "snd (step1 a1 e1 ?f) = Inr ?r1 \<and> snd (step1 a2 e2 ?f) = Inr ?r2
    \<and> after_aa_filter ?r1 = after_aa_filter ?r2
    \<and> removed_nonstandard_aa ?r1 = removed_nonstandard_aa ?r2
    \<and> mset (step1_output ?r1) = mset (step1_output ?r2)"
    using k lk lr by (simp add: s1 s2)
  from res rep1 rep2 r show ?thesis by blast
qed

theorem chunk_size_invariance_witness:
  "\<exists>r1 r2 rem1 rem2.
      snd (step1 \<lparr>threads = Some 1, chunk = 2, keep_uo = False, skip_length = True, skip_cdhit = True\<rparr>
             \<lparr>parse_input = ([\<lparr>id_str = ''seq1'', name = ''seq1'', description = ''seq1'', seq = ''ACDEFG''\<rparr>,
          \<lparr>id_str = ''seq2'', name = ''seq2'', description = ''seq2'', seq = ''ACDXFG''\<rparr>,
          \<lparr>id_str = ''seq3'', name = ''seq3'', description = ''seq3'', seq = ''ACDEFG''\<rparr>], None),
       completion = [1, 0], seqkit = Inr, cd_hit = (\<lambda>rs. Inr (rs, None))\<rparr>
             (\<lparr>report = Some ''old'', final_output = None, output_clstr = None\<rparr>\<lparr>report := Some []\<rparr>)) = Inr r1
    \<and> snd (step1 \<lparr>threads = Some 1, chunk = 1, keep_uo = False, skip_length = True, skip_cdhit = True\<rparr>
             \<lparr>parse_input = ([\<lparr>id_str = ''seq1'', name = ''seq1'', description = ''seq1'', seq = ''ACDEFG''\<rparr>,
          \<lparr>id_str = ''seq2'', name = ''seq2'', description = ''seq2'', seq = ''ACDXFG''\<rparr>,
          \<lparr>id_str = ''seq3'', name = ''seq3'', description = ''seq3'', seq = ''ACDEFG''\<rparr>], None),
       completion = [2, 0, 1], seqkit = Inr, cd_hit = (\<lambda>rs. Inr (rs, None))\<rparr>
             (\<lparr>report = Some ''old'', final_output = None, output_clstr = None\<rparr>\<lparr>report := Some []\<rparr>)) = Inr r2
    \<and> after_aa_filter r1 = after_aa_filter r2
    \<and> removed_nonstandard_aa r1 = removed_nonstandard_aa r2
    \<and> mset (step1_output r1) = mset (step1_output r2)
    \<and> report (fst (step1 \<lparr>threads = Some 1, chunk = 2, keep_uo = False, skip_length = True, skip_cdhit = True\<rparr>
             \<lparr>parse_input = ([\<lparr>id_str = ''seq1'', name = ''seq1'', description = ''seq1'', seq = ''ACDEFG''\<rparr>,
          \<lparr>id_str = ''seq2'', name = ''seq2'', description = ''seq2'', seq = ''ACDXFG''\<rparr>,
          \<lparr>id_str = ''seq3'', name = ''seq3'', description = ''seq3'', seq = ''ACDEFG''\<rparr>], None),
       completion = [1, 0], seqkit = Inr, cd_hit = (\<lambda>rs. Inr (rs, None))\<rparr>
             (\<lparr>report = Some ''old'', final_output = None, output_clstr = None\<rparr>\<lparr>report := Some []\<rparr>)))
        = Some (concat (map (\<lambda>(rid, sq). rid @ [CHR 0x09] @ sq @ [CHR 0x0A]) rem1))
    \<and> report (fst (step1 \<lparr>threads = Some 1, chunk = 1, keep_uo = False, skip_length = True, skip_cdhit = True\<rparr>
             \<lparr>parse_input = ([\<lparr>id_str = ''seq1'', name = ''seq1'', description = ''seq1'', seq = ''ACDEFG''\<rparr>,
          \<lparr>id_str = ''seq2'', name = ''seq2'', description = ''seq2'', seq = ''ACDXFG''\<rparr>,
          \<lparr>id_str = ''seq3'', name = ''seq3'', description = ''seq3'', seq = ''ACDEFG''\<rparr>], None),
       completion = [2, 0, 1], seqkit = Inr, cd_hit = (\<lambda>rs. Inr (rs, None))\<rparr>
             (\<lparr>report = Some ''old'', final_output = None, output_clstr = None\<rparr>\<lparr>report := Some []\<rparr>)))
        = Some (concat (map (\<lambda>(rid, sq). rid @ [CHR 0x09] @ sq @ [CHR 0x0A]) rem2))
    \<and> mset rem1 = mset rem2"
  by (rule chunk_size_invariance [where records = "[\<lparr>id_str = ''seq1'', name = ''seq1'', description = ''seq1'', seq = ''ACDEFG''\<rparr>,
       \<lparr>id_str = ''seq2'', name = ''seq2'', description = ''seq2'', seq = ''ACDXFG''\<rparr>,
       \<lparr>id_str = ''seq3'', name = ''seq3'', description = ''seq3'', seq = ''ACDEFG''\<rparr>]"])
     (simp_all add: submit_all_def executor_submit_def process_chunk_def str_seq_def
        main_standard_aa_def upper_def upper_char_def Let_def)

text \<open>
  Claim C4. Three records seq1 (ACDEFG), seq2 (ACDXFG) and seq3 (ACDEFG), the default
  alphabet of 20 amino acids, chunk size 2 and one worker: the batches are
  [seq1, seq2] and [seq3]; in either completion order step 1 keeps seq1 and seq3,
  writes the one report line of seq2 with ACDXFG, and counts 2 kept and 1 removed.
\<close>

theorem end_to_end_scenario:
  "step1 \<lparr>threads = Some 1, chunk = 2, keep_uo = False, skip_length = sl, skip_cdhit = sc\<rparr>
     (e\<lparr>parse_input := ([\<lparr>id_str = ''seq1'', name = n1, description = d1, seq = ''ACDEFG''\<rparr>,
                          \<lparr>id_str = ''seq2'', name = n2, description = d2, seq = ''ACDXFG''\<rparr>,
                          \<lparr>id_str = ''seq3'', name = n3, description = d3, seq = ''ACDEFG''\<rparr>], None),
        completion := [0, 1]\<rparr>)
     (files0\<lparr>report := Some []\<rparr>)
   = (files0\<lparr>report := Some (''seq2'' @ [CHR 0x09] @ ''ACDXFG'' @ [CHR 0x0A])\<rparr>,
      Inr \<lparr>input_count = 3, after_aa_filter = 2, removed_nonstandard_aa = 1,
           step1_output = [\<lparr>id_str = ''seq1'', name = n1, description = d1, seq = ''ACDEFG''\<rparr>,
                           \<lparr>id_str = ''seq3'', name = n3, description = d3, seq = ''ACDEFG''\<rparr>]\<rparr>)
   \<and> step1 \<lparr>threads = Some 1, chunk = 2, keep_uo = False, skip_length = sl, skip_cdhit = sc\<rparr>
     (e\<lparr>parse_input := ([\<lparr>id_str = ''seq1'', name = n1, description = d1, seq = ''ACDEFG''\<rparr>,
                          \<lparr>id_str = ''seq2'', name = n2, description = d2, seq = ''ACDXFG''\<rparr>,
                          \<lparr>id_str = ''seq3'', name = n3, description = d3, seq = ''ACDEFG''\<rparr>], None),
        completion := [1, 0]\<rparr>)
     (files0\<lparr>report := Some []\<rparr>)
   = (files0\<lparr>report := Some (''seq2'' @ [CHR 0x09] @ ''ACDXFG'' @ [CHR 0x0A])\<rparr>,
      Inr \<lparr>input_count = 3, after_aa_filter = 2, removed_nonstandard_aa = 1,
           step1_output = [\<lparr>id_str = ''seq3'', name = n3, description = d3, seq = ''ACDEFG''\<rparr>,
                           \<lparr>id_str = ''seq1'', name = n1, description = d1, seq = ''ACDEFG''\<rparr>]\<rparr>)"
  by (simp add: step1_def submit_all_def executor_submit_def process_chunk_def str_seq_def as_completed_def
      main_standard_aa_def upper_def upper_char_def Let_def open_append_def report_line_def)

text \<open>
  Claim C5, as stated, fails: with the records seq2 (ACDXFG) and b (a sequence with a
  non-ASCII letter) and chunk size 1, the worker of the first batch removes seq2, the
  worker of the second batch raises; when the second future completes first the run
  ends with an empty report, without the line of seq2.
\<close>

theorem report_counterexample:
  "snd (submit_all 1 (main_standard_aa False)
          [\<lparr>id_str = ''seq2'', name = ''seq2'', description = ''seq2'', seq = ''ACDXFG''\<rparr>, \<lparr>id_str = ''b'', name = ''b'', description = ''b'', seq = [CHR ''A'', CHR 0xC3, CHR 0x9F, CHR ''C'']\<rparr>])
     = [Inr ([], [(''seq2'', ''ACDXFG'')]), Inl (UnicodeDecodeError [CHR ''A'', CHR 0xC3, CHR 0x9F, CHR ''C''] 1)]
   \<and> main \<lparr>threads = Some 1, chunk = 1, keep_uo = False, skip_length = True, skip_cdhit = True\<rparr>
        \<lparr>parse_input = ([\<lparr>id_str = ''seq2'', name = ''seq2'', description = ''seq2'', seq = ''ACDXFG''\<rparr>,
          \<lparr>id_str = ''b'', name = ''b'', description = ''b'', seq = [CHR ''A'', CHR 0xC3, CHR 0x9F, CHR ''C'']\<rparr>], None),
       completion = [1, 0], seqkit = Inr, cd_hit = (\<lambda>rs. Inr (rs, None))\<rparr>
        \<lparr>report = Some ''old'', final_output = None, output_clstr = None\<rparr>
     = (\<lparr>report = Some [], final_output = None, output_clstr = None\<rparr>, Inl (UnicodeDecodeError [CHR ''A'', CHR 0xC3, CHR 0x9F, CHR ''C''] 1))"
  by (simp add: main_def step1_def submit_all_def executor_submit_def process_chunk_def str_seq_def as_completed_def
      main_standard_aa_def upper_def upper_char_def Let_def open_append_def report_line_def)

text \<open>
  Claim C5, amended. In a run that reads its input, whose sequences hold ASCII bytes
  only, the report file ends as the concatenation of one line
  \<open>identifier TAB upper-cased sequence NEWLINE\<close> per removed record of the input, each
  record once (in completion order of the batches). The report is emptied at the
  start: a run does not depend on what the report file held before, so nothing
  accumulates from one run to the next.
\<close>

theorem report_complete:
  "((case threads a of None \<Rightarrow> True | Some t \<Rightarrow> 0 < t)
     \<and> parse_input e = (records, None)
     \<and> mset (completion e) =
         mset [0..<length (snd (submit_all (chunk a) (main_standard_aa (keep_uo a)) records))]
     \<and> (\<forall>r\<in>set records. \<forall>c\<in>set (seq r). (of_char c :: nat) < 128)
    \<longrightarrow> (\<exists>rem. mset rem = mset (map (\<lambda>r. (id_str r, upper (seq r)))
                   (filter (\<lambda>r. \<not> set (upper (seq r)) \<subseteq> main_standard_aa (keep_uo a)) records))
           \<and> report (fst (main a e files0))
               = Some (concat (map (\<lambda>(rid, sq). rid @ [CHR 0x09] @ sq @ [CHR 0x0A]) rem))))
   \<and> main a e (files0\<lparr>report := old\<rparr>) = main a e files0"
proof (intro conjI impI)
  assume h: "(case threads a of None \<Rightarrow> True | Some t \<Rightarrow> 0 < t)
     \<and> parse_input e = (records, None)
     \<and> mset (completion e) =
         mset [0..<length (snd (submit_all (chunk a) (main_standard_aa (keep_uo a)) records))]
     \<and> (\<forall>r\<in>set records. \<forall>c\<in>set (seq r). (of_char c :: nat) < 128)"
  let ?f = "files0\<lparr>report := Some []\<rparr>"
  from h have h1: "case threads a of None \<Rightarrow> True | Some t \<Rightarrow> 0 < t"
    and h2: "parse_input e = (records, None)"
    and h3: "mset (completion e) =
         mset [0..<length (snd (submit_all (chunk a) (main_standard_aa (keep_uo a)) records))]"
    and h4: "\<forall>r\<in>set records. \<forall>c\<in>set (seq r). (of_char c :: nat) < 128"
    by blast+
  from step1_ok [OF h1 h2 h3 h4, of ?f]
  obtain kept rem where
    r: "mset rem = mset (map (\<lambda>r. (id_str r, upper (seq r)))
         (filter (\<lambda>r. \<not> set (upper (seq r)) \<subseteq> main_standard_aa (keep_uo a)) records))"
    and s: "step1 a e ?f =
        (?f\<lparr>report := (if rem = [] then report ?f
                         else Some (open_append (report ?f) @ concat (map report_line rem)))\<rparr>,
         Inr \<lparr>input_count = int (length records), after_aa_filter = int (length kept),
              removed_nonstandard_aa = int (length rem), step1_output = kept\<rparr>)"
    by blast
  have "report (fst (main a e files0)) = Some (concat (map report_line rem))"
    by (simp add: main_report s open_append_def)
  then have "report (fst (main a e files0))
               = Some (concat (map (\<lambda>(rid, sq). rid @ [CHR 0x09] @ sq @ [CHR 0x0A]) rem))"
    by (simp only: report_line_fmt)
  with r show "\<exists>rem. mset rem = mset (map (\<lambda>r. (id_str r, upper (seq r)))
                   (filter (\<lambda>r. \<not> set (upper (seq r)) \<subseteq> main_standard_aa (keep_uo a)) records))
           \<and> report (fst (main a e files0))
               = Some (concat (map (\<lambda>(rid, sq). rid @ [CHR 0x09] @ sq @ [CHR 0x0A]) rem))"
    by blast
next
  show "main a e (files0\<lparr>report := old\<rparr>) = main a e files0"
    by (rule main_report_reset)
qed

theorem report_complete_witness:
  "report (fst (main \<lparr>threads = Some 1, chunk = 1, keep_uo = False, skip_length = True, skip_cdhit = True\<rparr>
        \<lparr>parse_input = ([\<lparr>id_str = ''seq1'', name = ''seq1'', description = ''seq1'', seq = ''acdefg''\<rparr>,
          \<lparr>id_str = ''seq2'', name = ''seq2'', description = ''seq2'', seq = ''acdxfg''\<rparr>], None),
       completion = [1, 0], seqkit = Inr, cd_hit = (\<lambda>rs. Inr (rs, None))\<rparr>
        \<lparr>report = Some ''old'', final_output = None, output_clstr = None\<rparr>))
     = Some (''seq2'' @ [CHR 0x09] @ ''ACDXFG'' @ [CHR 0x0A])
   \<and> main \<lparr>threads = Some 1, chunk = 1, keep_uo = False, skip_length = True, skip_cdhit = True\<rparr>
        \<lparr>parse_input = ([\<lparr>id_str = ''seq1'', name = ''seq1'', description = ''seq1'', seq = ''acdefg''\<rparr>,
          \<lparr>id_str = ''seq2'', name = ''seq2'', description = ''seq2'', seq = ''acdxfg''\<rparr>], None),
       completion = [1, 0], seqkit = Inr, cd_hit = (\<lambda>rs. Inr (rs, None))\<rparr>
        (\<lparr>report = Some ''old'', final_output = None, output_clstr = None\<rparr>\<lparr>report := Some ''previous run''\<rparr>)
     = main \<lparr>threads = Some 1, chunk = 1, keep_uo = False, skip_length = True, skip_cdhit = True\<rparr>
        \<lparr>parse_input = ([\<lparr>id_str = ''seq1'', name = ''seq1'', description = ''seq1'', seq = ''acdefg''\<rparr>,
          \<lparr>id_str = ''seq2'', name = ''seq2'', description = ''seq2'', seq = ''acdxfg''\<rparr>], None),
       completion = [1, 0], seqkit = Inr, cd_hit = (\<lambda>rs. Inr (rs, None))\<rparr>
        \<lparr>report = Some ''old'', final_output = None, output_clstr = None\<rparr>"
proof -
  have u: "upper ''acdefg'' = ''ACDEFG''" "upper ''acdxfg'' = ''ACDXFG''"
    by code_simp+
  show ?thesis
    using report_complete [of "\<lparr>threads = Some 1, chunk = 1, keep_uo = False, skip_length = True, skip_cdhit = True\<rparr>"
     "\<lparr>parse_input = ([\<lparr>id_str = ''seq1'', name = ''seq1'', description = ''seq1'', seq = ''acdefg''\<rparr>,
          \<lparr>id_str = ''seq2'', name = ''seq2'', description = ''seq2'', seq = ''acdxfg''\<rparr>], None),
       completion = [1, 0], seqkit = Inr, cd_hit = (\<lambda>rs. Inr (rs, None))\<rparr>"
     "[\<lparr>id_str = ''seq1'', name = ''seq1'', description = ''seq1'', seq = ''acdefg''\<rparr>,
      \<lparr>id_str = ''seq2'', name = ''seq2'', description = ''seq2'', seq = ''acdxfg''\<rparr>]" "\<lparr>report = Some ''old'', final_output = None, output_clstr = None\<rparr>" "Some ''previous run''"]
    by (auto simp add: u submit_all_def executor_submit_def process_chunk_def str_seq_def
          main_standard_aa_def Let_def)
qed

section \<open>Failures\<close>

text \<open>
  Claim C7, as stated, fails: the run with the records b (a sequence with a non-ASCII
  letter) and seq1, chunk size 1, fails in the batch at offset 0; the run with seq1 and
  b fails in the batch at offset 1. Both runs end with the same exception, the
  \<^verbatim>\<open>UnicodeDecodeError\<close> of the worker with the bytes of the sequence and the
  position of the byte in it: nothing in it tells which batch failed.
\<close>

theorem worker_error_counterexample:
  "snd (main \<lparr>threads = Some 1, chunk = 1, keep_uo = False, skip_length = True, skip_cdhit = True\<rparr>
        \<lparr>parse_input = ([\<lparr>id_str = ''b'', name = ''b'', description = ''b'', seq = [CHR ''A'', CHR 0xC3, CHR 0x9F, CHR ''C'']\<rparr>,
          \<lparr>id_str = ''seq1'', name = ''seq1'', description = ''seq1'', seq = ''ACDEFG''\<rparr>], None),
       completion = [0, 1], seqkit = Inr, cd_hit = (\<lambda>rs. Inr (rs, None))\<rparr>
        \<lparr>report = Some ''old'', final_output = None, output_clstr = None\<rparr>)
     = Inl (UnicodeDecodeError [CHR ''A'', CHR 0xC3, CHR 0x9F, CHR ''C''] 1)
   \<and> snd (main \<lparr>threads = Some 1, chunk = 1, keep_uo = False, skip_length = True, skip_cdhit = True\<rparr>
        \<lparr>parse_input = ([\<lparr>id_str = ''seq1'', name = ''seq1'', description = ''seq1'', seq = ''ACDEFG''\<rparr>,
          \<lparr>id_str = ''b'', name = ''b'', description = ''b'', seq = [CHR ''A'', CHR 0xC3, CHR 0x9F, CHR ''C'']\<rparr>], None),
       completion = [0, 1], seqkit = Inr, cd_hit = (\<lambda>rs. Inr (rs, None))\<rparr>
        \<lparr>report = Some ''old'', final_output = None, output_clstr = None\<rparr>)
     = Inl (UnicodeDecodeError [CHR ''A'', CHR 0xC3, CHR 0x9F, CHR ''C''] 1)"
  by (simp add: main_def step1_def submit_all_def executor_submit_def process_chunk_def str_seq_def as_completed_def
      main_standard_aa_def upper_def upper_char_def Let_def open_append_def report_line_def)

text \<open>
  Claim C7, amended. If a worker's filter invocation fails, which it does exactly on a
  batch holding a record with a non-ASCII sequence byte, the whole run ends with the
  exception of a failing worker as it was raised (a \<^verbatim>\<open>UnicodeDecodeError\<close> with the
  bytes of one such sequence and the position of its first non-ASCII byte) and with
  exit status 1; no final output and no cluster file is written, so no partial result
  is passed on silently. The exception is not wrapped and does not identify the batch
  by offset or index.
\<close>

theorem worker_error_aborts:
  assumes "case threads a of None \<Rightarrow> True | Some t \<Rightarrow> 0 < t"
    and "parse_input e = (records, None)"
    and "mset (completion e) =
         mset [0..<length (snd (submit_all (chunk a) (main_standard_aa (keep_uo a)) records))]"
    and "\<exists>r\<in>set records. \<exists>c\<in>set (seq r). 128 \<le> (of_char c :: nat)"
  shows "\<exists>r\<in>set records. (\<exists>c\<in>set (seq r). 128 \<le> (of_char c :: nat))
    \<and> snd (main a e files0) =
         Inl (UnicodeDecodeError (seq r)
                (length (takeWhile (\<lambda>c. (of_char c :: nat) < 128) (seq r))))
    \<and> exit_status (snd (main a e files0)) = 1
    \<and> final_output (fst (main a e files0)) = final_output files0
    \<and> output_clstr (fst (main a e files0)) = output_clstr files0"
proof -
  let ?f = "files0\<lparr>report := Some []\<rparr>"
  from step1_raises [OF assms, of ?f]
  obtain r where r: "r \<in> set records" "\<exists>c\<in>set (seq r). 128 \<le> (of_char c :: nat)"
    and s: "snd (step1 a e ?f) =
         Inl (UnicodeDecodeError (seq r)
                (length (takeWhile (\<lambda>c. (of_char c :: nat) < 128) (seq r))))"
    and fo: "final_output (fst (step1 a e ?f)) = final_output ?f"
    and oc: "output_clstr (fst (step1 a e ?f)) = output_clstr ?f"
    by blast
  from main_step1_raises [OF s]
  have m: "main a e files0 = (fst (step1 a e ?f),
         Inl (UnicodeDecodeError (seq r)
                (length (takeWhile (\<lambda>c. (of_char c :: nat) < 128) (seq r)))))" .
  have "snd (main a e files0) =
         Inl (UnicodeDecodeError (seq r)
                (length (takeWhile (\<lambda>c. (of_char c :: nat) < 128) (seq r))))
    \<and> exit_status (snd (main a e files0)) = 1
    \<and> final_output (fst (main a e files0)) = final_output files0
    \<and> output_clstr (fst (main a e files0)) = output_clstr files0"
    using fo oc by (simp add: m exit_status_def)
  with r show ?thesis by blast
qed

theorem worker_error_aborts_witness:
  "main \<lparr>threads = Some 1, chunk = 1, keep_uo = False, skip_length = True, skip_cdhit = True\<rparr>
        \<lparr>parse_input = ([\<lparr>id_str = ''b'', name = ''b'', description = ''b'', seq = [CHR ''A'', CHR 0xC3, CHR 0x9F, CHR ''C'']\<rparr>,
          \<lparr>id_str = ''seq1'', name = ''seq1'', description = ''seq1'', seq = ''ACDEFG''\<rparr>], None),
       completion = [0, 1], seqkit = Inr, cd_hit = (\<lambda>rs. Inr (rs, None))\<rparr>
        \<lparr>report = Some ''old'', final_output = None, output_clstr = None\<rparr>
     = (\<lparr>report = Some [], final_output = None, output_clstr = None\<rparr>, Inl (UnicodeDecodeError [CHR ''A'', CHR 0xC3, CHR 0x9F, CHR ''C''] 1))
   \<and> exit_status (Inl (UnicodeDecodeError [CHR ''A'', CHR 0xC3, CHR 0x9F, CHR ''C''] 1)) = 1"
  using worker_error_aborts [of "\<lparr>threads = Some 1, chunk = 1, keep_uo = False, skip_length = True, skip_cdhit = True\<rparr>"
        "\<lparr>parse_input = ([\<lparr>id_str = ''b'', name = ''b'', description = ''b'', seq = [CHR ''A'', CHR 0xC3, CHR 0x9F, CHR ''C'']\<rparr>,
          \<lparr>id_str = ''seq1'', name = ''seq1'', description = ''seq1'', seq = ''ACDEFG''\<rparr>], None),
       completion = [0, 1], seqkit = Inr, cd_hit = (\<lambda>rs. Inr (rs, None))\<rparr>"
        "[\<lparr>id_str = ''b'', name = ''b'', description = ''b'', seq = [CHR ''A'', CHR 0xC3, CHR 0x9F, CHR ''C'']\<rparr>,
      \<lparr>id_str = ''seq1'', name = ''seq1'', description = ''seq1'', seq = ''ACDEFG''\<rparr>]"
        "\<lparr>report = Some ''old'', final_output = None, output_clstr = None\<rparr>"]
  by (simp add: main_def exit_status_def step1_def submit_all_def executor_submit_def process_chunk_def str_seq_def as_completed_def
      main_standard_aa_def upper_def upper_char_def Let_def open_append_def report_line_def)

text \<open>
  Claim C8, as stated, fails: with a missing input file the run ends with the
  exception, but the report file, which held text of an earlier run, has been emptied
  before the input was opened, so the state is not unchanged.
\<close>

theorem input_error_counterexample:
  "fst (main \<lparr>threads = Some 1, chunk = 2, keep_uo = False, skip_length = True, skip_cdhit = True\<rparr>
          \<lparr>parse_input = ([], Some FileNotFoundError), completion = [],
           seqkit = Inr, cd_hit = (\<lambda>rs. Inr (rs, None))\<rparr>
          \<lparr>report = Some ''old'', final_output = None, output_clstr = None\<rparr>)
     = \<lparr>report = Some [], final_output = None, output_clstr = None\<rparr>
   \<and> \<lparr>report = Some [], final_output = None, output_clstr = None\<rparr>
       \<noteq> \<lparr>report = Some ''old'', final_output = None, output_clstr = None\<rparr>"
  by (simp add: main_def step1_def)

text \<open>
  Claim C8, amended. When reading the input raises (missing, unreadable or malformed
  file), the run ends with an exception and exit status 1 before any result is
  collected: the final output and the cluster file are as they were and no report line
  is written, but the report file has been created or emptied. With a valid thread
  count the exception is the one the reader raised; with a thread count that is not
  positive it is the \<^verbatim>\<open>ValueError\<close> of the thread pool.
\<close>

theorem input_error_aborts:
  "snd (parse_input e) = Some ex \<Longrightarrow>
     fst (main a e files0) = files0\<lparr>report := Some []\<rparr>
     \<and> exit_status (snd (main a e files0)) = 1
     \<and> ((case threads a of None \<Rightarrow> True | Some t \<Rightarrow> 0 < t) \<longrightarrow> snd (main a e files0) = Inl ex)
     \<and> ((case threads a of None \<Rightarrow> False | Some t \<Rightarrow> t \<le> 0) \<longrightarrow>
          snd (main a e files0) = Inl (ValueError ''max_workers must be greater than 0''))"
  by (auto simp add: main_def step1_def exit_status_def split: option.splits)

theorem input_error_aborts_witness:
  "snd (parse_input \<lparr>parse_input = ([], Some FileNotFoundError), completion = [],
           seqkit = Inr, cd_hit = (\<lambda>rs. Inr (rs, None))\<rparr>) = Some FileNotFoundError
   \<and> fst (main \<lparr>threads = Some 4, chunk = 50000, keep_uo = False, skip_length = False, skip_cdhit = False\<rparr>
          \<lparr>parse_input = ([], Some FileNotFoundError), completion = [],
           seqkit = Inr, cd_hit = (\<lambda>rs. Inr (rs, None))\<rparr>
          \<lparr>report = None, final_output = Some [], output_clstr = None\<rparr>)
       = \<lparr>report = Some [], final_output = Some [], output_clstr = None\<rparr>
   \<and> exit_status (snd (main \<lparr>threads = Some 4, chunk = 50000, keep_uo = False, skip_length = False, skip_cdhit = False\<rparr>
          \<lparr>parse_input = ([], Some FileNotFoundError), completion = [],
           seqkit = Inr, cd_hit = (\<lambda>rs. Inr (rs, None))\<rparr>
          \<lparr>report = None, final_output = Some [], output_clstr = None\<rparr>)) = 1
   \<and> snd (main \<lparr>threads = Some 4, chunk = 50000, keep_uo = False, skip_length = False, skip_cdhit = False\<rparr>
          \<lparr>parse_input = ([], Some FileNotFoundError), completion = [],
           seqkit = Inr, cd_hit = (\<lambda>rs. Inr (rs, None))\<rparr>
          \<lparr>report = None, final_output = Some [], output_clstr = None\<rparr>) = Inl FileNotFoundError
   \<and> snd (main \<lparr>threads = Some 0, chunk = 50000, keep_uo = False, skip_length = False, skip_cdhit = False\<rparr>
          \<lparr>parse_input = ([], Some FileNotFoundError), completion = [],
           seqkit = Inr, cd_hit = (\<lambda>rs. Inr (rs, None))\<rparr>
          \<lparr>report = None, final_output = Some [], output_clstr = None\<rparr>) = Inl (ValueError ''max_workers must be greater than 0'')"
  using input_error_aborts
    [of "\<lparr>parse_input = ([], Some FileNotFoundError), completion = [],
           seqkit = Inr, cd_hit = (\<lambda>rs. Inr (rs, None))\<rparr>" FileNotFoundError
        "\<lparr>threads = Some 4, chunk = 50000, keep_uo = False, skip_length = False, skip_cdhit = False\<rparr>"
        "\<lparr>report = None, final_output = Some [], output_clstr = None\<rparr>"]
    input_error_aborts
    [of "\<lparr>parse_input = ([], Some FileNotFoundError), completion = [],
           seqkit = Inr, cd_hit = (\<lambda>rs. Inr (rs, None))\<rparr>" FileNotFoundError
        "\<lparr>threads = Some 0, chunk = 50000, keep_uo = False, skip_length = False, skip_cdhit = False\<rparr>"
        "\<lparr>report = None, final_output = Some [], output_clstr = None\<rparr>"]
  by (simp add: exit_status_def)

end
